theory Spec2Isabelle
  imports Main
begin

section \<open>JavaScript values\<close>

text \<open>
  The values that flow through \<^verbatim>\<open>PopulateDecorator.js\<close>: cache payloads, the
  arguments of Node-style callbacks, and thrown values. The file only ever tests a value
  for truthiness, reads or assigns the \<^verbatim>\<open>message\<close> property, and builds error objects
  from a message and an inner error. An object is therefore represented by its
  constructor name, what reading its \<^verbatim>\<open>message\<close> yields (\<open>None\<close> for
  \<^verbatim>\<open>undefined\<close>, a string otherwise), whether an assignment to \<^verbatim>\<open>message\<close> takes
  effect (it does not on a frozen object or on a non-writable or getter-only property),
  and its \<^verbatim>\<open>inner_error\<close>. Reading and assigning \<^verbatim>\<open>message\<close> run no code of the
  object's own. Numbers are integers plus \<^verbatim>\<open>NaN\<close>: the only operation on them is the
  truthiness test, which is false exactly for zero and \<^verbatim>\<open>NaN\<close>.
\<close>

datatype jsval =
    JUndefined
  | JNull
  | JBool bool
  | JNum int
  | JNaN
  | JStr string
  | JObj string "string option" bool jsval

text \<open>\<^verbatim>\<open>if (x)\<close>: the falsy values are undefined, null, false, 0, NaN and the empty string.\<close>

fun truthy :: "jsval \<Rightarrow> bool" where
  "truthy JUndefined = False"
| "truthy JNull = False"
| "truthy (JBool b) = b"
| "truthy (JNum n) = (n \<noteq> 0)"
| "truthy JNaN = False"
| "truthy (JStr s) = (s \<noteq> [])"
| "truthy (JObj c m wr i) = True"

text \<open>
  \<^verbatim>\<open>String(x.message)\<close> for a truthy \<open>x\<close>: the message of an object that has one;
  a primitive, or an object without the property, yields \<^verbatim>\<open>undefined\<close>, which
  string conversion renders as the text \<^verbatim>\<open>undefined\<close>.
\<close>

fun message_text :: "jsval \<Rightarrow> string" where
  "message_text (JObj c (Some m) wr i) = m"
| "message_text v = ''undefined''"

text \<open>
  \<^verbatim>\<open>errorHelpers.generateClass(name)\<close> yields a constructor taking
  \<^verbatim>\<open>(message, inner_error)\<close>; \<^verbatim>\<open>new C(msg, err)\<close> is a fresh object named after the
  class that carries both as ordinary properties.
\<close>

definition new_error :: "string \<Rightarrow> string \<Rightarrow> jsval \<Rightarrow> jsval" where
  "new_error cls msg inner = JObj cls (Some msg) True inner"

text \<open>
  \<^verbatim>\<open>/Exceeded max retry count/.test(s)\<close>: the pattern has no metacharacters and no
  anchors, so the test is a case-sensitive search for the literal text at any position.
\<close>

fun is_prefix :: "string \<Rightarrow> string \<Rightarrow> bool" where
  "is_prefix [] s = True"
| "is_prefix (p # ps) [] = False"
| "is_prefix (p # ps) (c # cs) = (p = c \<and> is_prefix ps cs)"

fun regex_test :: "string \<Rightarrow> string \<Rightarrow> bool" where
  "regex_test pat [] = is_prefix pat []"
| "regex_test pat (c # cs) = (is_prefix pat (c # cs) \<or> regex_test pat cs)"

definition retry_pattern :: string where
  "retry_pattern = ''Exceeded max retry count''"

section \<open>The world: store, observable events, collaborators\<close>

text \<open>
  What a run can be observed to do. \<open>StoreGet\<close> and \<open>StoreSet\<close> are calls of the
  underlying cache's primitives as their contract has them; \<open>StoreSetMisused\<close> is a call
  of \<^verbatim>\<open>set\<close> with the key, the listed values and then the continuation, which is not
  the shape \<^verbatim>\<open>set(key, value, cb)\<close>. \<open>PopulateCalled\<close> is a call of the configured
  \<^verbatim>\<open>populate\<close> function, \<open>LeaseRequested\<close> a call of \<^verbatim>\<open>this._lease\<close>,
  \<open>LeaseReleased\<close> a call of the \<^verbatim>\<open>unlock\<close> releaser, \<open>ErrorEmitted\<close> an error
  handed to the error sink, and \<open>Replied\<close> a completion, with its argument list,
  delivered to an observing caller.
\<close>

datatype event =
    StoreGet string
  | StoreSet string jsval
  | StoreSetMisused string "jsval list"
  | PopulateCalled string
  | LeaseRequested string
  | LeaseReleased string
  | ErrorEmitted jsval
  | Replied "jsval list"

record world =
  store :: "string \<rightharpoonup> jsval"
  trace :: "event list"

definition log :: "event \<Rightarrow> world \<Rightarrow> world" where
  "log e w = w\<lparr>trace := trace w @ [e]\<rparr>"

text \<open>
  A run finishes, or an exception (named by its class) leaves the call stack uncaught, or
  control passes to a collaborator in a way its contract does not cover, after which
  nothing is known. A callback is called with a list of arguments; a parameter for which
  no argument was passed is \<^verbatim>\<open>undefined\<close>.
\<close>

datatype outcome = Done world | Uncaught string world | OutsideContract world

type_synonym callback = "jsval list \<Rightarrow> world \<Rightarrow> outcome"

definition nth_arg :: "nat \<Rightarrow> jsval list \<Rightarrow> jsval" where
  "nth_arg n args = (if n < length args then args ! n else JUndefined)"

text \<open>
  What one call of the caller-supplied \<^verbatim>\<open>config.populate(key, cb)\<close> does: it calls
  \<^verbatim>\<open>cb\<close> with some arguments before the deadline, or throws synchronously before
  calling back, or does neither before the deadline.
\<close>

datatype behaviour =
    CallsBack "jsval list"
  | Throws jsval
  | Silent

text \<open>
  The collaborators that are not part of \<^verbatim>\<open>PopulateDecorator.js\<close>, as parameters:
  the namespace \<^verbatim>\<open>this._nsp\<close>; the configured populate function; the \<^verbatim>\<open>err\<close>
  argument the lease coordinator passes to \<^verbatim>\<open>critical\<close> for a lease name (a falsy
  one means the lease was granted and a releaser was passed); the \<^verbatim>\<open>err\<close> the
  underlying cache reports for a read and for a write (falsy means success); and the
  message of the timeout guard's error.
\<close>

record env =
  nsp :: string
  user_populate :: "string \<Rightarrow> behaviour"
  lease_err :: "string \<Rightarrow> jsval"
  get_err :: "string \<Rightarrow> jsval"
  set_err :: "string \<Rightarrow> jsval \<Rightarrow> jsval"
  timeout_message :: string

section \<open>Collaborators consumed through their contract\<close>

text \<open>
  Modelled from the spec: the underlying cache's \<^verbatim>\<open>get\<close> primitive
  (\<^verbatim>\<open>this._cache.get\<close>), which is not part of the decorator's file. The contract is
  \<^verbatim>\<open>get(key) \<rightarrow> (value | empty)\<close>: a failed read reports its error, a successful one
  the stored value, and \<^verbatim>\<open>null\<close> for a key that is absent.
\<close>

definition cache_get :: "env \<Rightarrow> string \<Rightarrow> callback \<Rightarrow> world \<Rightarrow> outcome" where
  "cache_get env key cb w =
     (let w1 = log (StoreGet key) w in
      if truthy (get_err env key) then cb [get_err env key] w1
      else cb [JNull, case store w key of None \<Rightarrow> JNull | Some v \<Rightarrow> v] w1)"

text \<open>
  Modelled from the spec: the \<^verbatim>\<open>set\<close> primitive (\<^verbatim>\<open>this.set\<close>, inherited from
  \<^verbatim>\<open>BaseDecorator\<close>, which is not part of the decorator's file), called as
  \<^verbatim>\<open>set(key, value, cb)\<close>. The contract is \<^verbatim>\<open>set(key, value) \<rightarrow> success | error\<close>,
  and a populate that succeeds returns the populated value: a failed write reports the
  store's own error and leaves the store as it was, a successful one stores the value and
  completes with it.
\<close>

definition cache_set :: "env \<Rightarrow> string \<Rightarrow> jsval \<Rightarrow> callback \<Rightarrow> world \<Rightarrow> outcome" where
  "cache_set env key v cb w =
     (let w1 = log (StoreSet key v) w in
      if truthy (set_err env key v) then cb [set_err env key v] w1
      else cb [JNull, v] (w1\<lparr>store := (store w1)(key \<mapsto> v)\<rparr>))"

text \<open>
  Modelled from the spec: the error of the timeout guard \<^verbatim>\<open>completeWithin\<close> (from
  \<^verbatim>\<open>../util\<close>, not part of the decorator's file). If the deadline elapses first the
  guard completes with a \<^verbatim>\<open>TimeoutError\<close>; a completion within the deadline is
  forwarded unchanged.
\<close>

definition timeout_error :: "env \<Rightarrow> jsval" where
  "timeout_error env = new_error ''TimeoutError'' (timeout_message env) JUndefined"


text \<open>
  \<^verbatim>\<open>async.waterfall([task1, task2], cb)\<close>. The first task completes with a list of
  arguments. If the first of them is truthy, the final callback is called at once with
  exactly those arguments. Otherwise the second task is called with the remaining
  arguments followed by the final callback, whatever their number.
\<close>

definition waterfall2 ::
  "(callback \<Rightarrow> world \<Rightarrow> outcome) \<Rightarrow> (jsval list \<Rightarrow> callback \<Rightarrow> world \<Rightarrow> outcome) \<Rightarrow>
   callback \<Rightarrow> world \<Rightarrow> outcome" where
  "waterfall2 task1 task2 cb w =
     task1 (\<lambda>args w'. if truthy (nth_arg 0 args) then cb args w' else task2 (tl args) cb w') w"

section \<open>PopulateDecorator\<close>

text \<open>
  The \<^verbatim>\<open>catch (e)\<close> block of \<^verbatim>\<open>populate\<close>:
  \<^verbatim>\<open>e.message = 'populate threw an error; cause: ' + e.message\<close>. The file is not in
  strict mode. On an object whose \<^verbatim>\<open>message\<close> can be assigned the property is
  overwritten; on an object where it cannot, and on a primitive, the assignment is
  silently ignored; on \<^verbatim>\<open>null\<close> and \<^verbatim>\<open>undefined\<close> the property access itself throws
  a \<^verbatim>\<open>TypeError\<close>, for which the result is \<open>None\<close>.
\<close>

fun prefix_message :: "jsval \<Rightarrow> jsval option" where
  "prefix_message JUndefined = None"
| "prefix_message JNull = None"
| "prefix_message (JObj c m wr i) =
     Some (if wr
           then JObj c (Some (''populate threw an error; cause: '' @ message_text (JObj c m wr i)))
                  wr i
           else JObj c m wr i)"
| "prefix_message v = Some v"

text \<open>
  The first task of \<^verbatim>\<open>populate\<close>'s waterfall: the configured function is called with
  the key and the guarded callback, inside \<^verbatim>\<open>try\<close>/\<^verbatim>\<open>catch\<close>. A completion
  before the deadline passes the guard with the arguments it was given; a caught fault is
  handed to the guarded callback as its only argument, after the assignment to its
  message; with no completion before the deadline the guard completes with its timeout
  error.
\<close>

definition populate_task :: "env \<Rightarrow> string \<Rightarrow> callback \<Rightarrow> world \<Rightarrow> outcome" where
  "populate_task env key cb w =
     (let w1 = log (PopulateCalled key) w in
      case user_populate env key of
        CallsBack args \<Rightarrow> cb args w1
      | Throws e \<Rightarrow>
          (case prefix_message e of
             None \<Rightarrow> Uncaught ''TypeError'' w1
           | Some e' \<Rightarrow> cb [e'] w1)
      | Silent \<Rightarrow> cb [timeout_error env] w1)"

text \<open>
  The second task of \<^verbatim>\<open>populate\<close>'s waterfall, \<^verbatim>\<open>this.set.bind(this, key)\<close>, called
  with the first task's results followed by the continuation. With exactly one result
  this is \<^verbatim>\<open>set(key, value, cb)\<close>. With none, \<^verbatim>\<open>set\<close> gets the continuation as the
  value and no callback; with more, the second result stands where the callback is
  expected. Neither is covered by the contract of \<^verbatim>\<open>set\<close>.
\<close>

definition set_bound :: "env \<Rightarrow> string \<Rightarrow> jsval list \<Rightarrow> callback \<Rightarrow> world \<Rightarrow> outcome" where
  "set_bound env key results cb w =
     (case results of
        [v] \<Rightarrow> cache_set env key v cb w
      | _ \<Rightarrow> OutsideContract (log (StoreSetMisused key results) w))"

definition populate :: "env \<Rightarrow> string \<Rightarrow> callback \<Rightarrow> world \<Rightarrow> outcome" where
  "populate env key cb w = waterfall2 (populate_task env key) (set_bound env key) cb w"

text \<open>
  The second task of \<^verbatim>\<open>get\<close>'s waterfall, \<^verbatim>\<open>returnOrPopulate(value, cb)\<close>. The store's
  \<^verbatim>\<open>get\<close> completes a successful read with exactly one result; with any other number
  the parameters \<^verbatim>\<open>value\<close> and \<^verbatim>\<open>cb\<close> are not the ones meant, which the contract of
  the store excludes.
\<close>

definition returnOrPopulate :: "env \<Rightarrow> string \<Rightarrow> jsval list \<Rightarrow> callback \<Rightarrow> world \<Rightarrow> outcome" where
  "returnOrPopulate env key results cb w =
     (case results of
        [val] \<Rightarrow> if truthy val then cb [JNull, val] w else populate env key cb w
      | _ \<Rightarrow> OutsideContract w)"

definition get :: "env \<Rightarrow> string \<Rightarrow> callback \<Rightarrow> world \<Rightarrow> outcome" where
  "get env key cb w = waterfall2 (cache_get env key) (returnOrPopulate env key) cb w"

definition lockKey :: "env \<Rightarrow> string \<Rightarrow> string" where
  "lockKey env key = nsp env @ key"

text \<open>
  The callback \<^verbatim>\<open>critical(err, unlock)\<close> that \<^verbatim>\<open>leasedPopulate\<close> hands to the
  lease coordinator. The releaser \<^verbatim>\<open>unlock\<close> is not a parameter here: calling it is
  the \<open>LeaseReleased\<close> event for the lease name. The callback given to \<^verbatim>\<open>populate\<close>
  is \<^verbatim>\<open>function (err, value)\<close>, which reads the first two arguments it is called with.
\<close>

definition critical :: "env \<Rightarrow> string \<Rightarrow> callback \<Rightarrow> jsval \<Rightarrow> world \<Rightarrow> outcome" where
  "critical env key cb err w =
     (if truthy err then
        (let isLocked = regex_test retry_pattern (message_text err) in
         if isLocked then cb [JNull] w
         else cb [new_error ''LockError''
                    (''could not aquire lock for: '' @ lockKey env key) err] w)
      else
        populate env key
          (\<lambda>args w'.
             if truthy (nth_arg 0 args) then
               cb [new_error ''PopulateError''
                     (''failed to populate '' @ [CHR 0x22] @ lockKey env key @ [CHR 0x22])
                     (nth_arg 0 args)] w'
             else cb [JNull, nth_arg 1 args] (log (LeaseReleased (lockKey env key)) w'))
          w)"

text \<open>
  \<^verbatim>\<open>leasedPopulate\<close>: \<^verbatim>\<open>this._lease(lockKey, critical)\<close>. The coordinator is asked
  for the lease and calls \<^verbatim>\<open>critical\<close> with its answer.
\<close>

definition leasedPopulate :: "env \<Rightarrow> string \<Rightarrow> callback \<Rightarrow> world \<Rightarrow> outcome" where
  "leasedPopulate env key cb w =
     critical env key cb (lease_err env (lockKey env key))
       (log (LeaseRequested (lockKey env key)) w)"


section \<open>Concrete configurations\<close>

text \<open>An observing caller: its callback records what it was completed with.\<close>

definition reply :: callback where
  "reply args w = Done (log (Replied args) w)"

text \<open>The world a run ends in, whichever way it ends.\<close>

fun final_world :: "outcome \<Rightarrow> world" where
  "final_world (Done w) = w"
| "final_world (Uncaught c w) = w"
| "final_world (OutsideContract w) = w"

definition w_empty :: world where
  "w_empty = \<lparr>store = Map.empty, trace = []\<rparr>"

definition env_ok :: env where
  "env_ok = \<lparr>nsp = ''ns:'',
            user_populate = (\<lambda>key. CallsBack [JNull, JStr ''v1'']),
            lease_err = (\<lambda>name. JNull),
            get_err = (\<lambda>key. JNull),
            set_err = (\<lambda>key v. JNull),
            timeout_message = ''timed out''\<rparr>"

definition env_busy :: env where
  "env_busy = env_ok\<lparr>lease_err :=
     (\<lambda>name. JObj ''Error'' (Some ''Exceeded max retry count'') True JUndefined)\<rparr>"

definition env_down :: env where
  "env_down = env_ok\<lparr>lease_err :=
     (\<lambda>name. JObj ''Error'' (Some ''connect ECONNREFUSED'') True JUndefined)\<rparr>"

definition env_fail :: env where
  "env_fail = env_ok\<lparr>user_populate :=
     (\<lambda>key. CallsBack [JObj ''Error'' (Some ''db down'') True JUndefined])\<rparr>"

text \<open>
  A populate function that throws: \<^verbatim>\<open>null\<close> for the key \<^verbatim>\<open>nil\<close>, the number
  \<^verbatim>\<open>0\<close> for the key \<^verbatim>\<open>zero\<close>, a frozen \<^verbatim>\<open>Error('boom')\<close> for the key
  \<^verbatim>\<open>frozen\<close>, and an ordinary \<^verbatim>\<open>Error('boom')\<close> for every other key.
\<close>

definition env_throw :: env where
  "env_throw = env_ok\<lparr>user_populate :=
     (\<lambda>key. if key = ''nil'' then Throws JNull
            else if key = ''zero'' then Throws (JNum 0)
            else if key = ''frozen'' then Throws (JObj ''Error'' (Some ''boom'') False JUndefined)
            else Throws (JObj ''Error'' (Some ''boom'') True JUndefined))\<rparr>"

definition w_hit :: world where
  "w_hit = \<lparr>store = [''k'' \<mapsto> JStr ''v0''], trace = []\<rparr>"

definition w_zero :: world where
  "w_zero = \<lparr>store = [''k'' \<mapsto> JNum 0], trace = []\<rparr>"

section \<open>Helper facts\<close>

lemma truthy_iff:
  "truthy v \<longleftrightarrow> v \<notin> {JUndefined, JNull, JBool False, JNum 0, JNaN, JStr []}"
  by (cases v) auto

lemma nth_arg_simps [simp]:
  "nth_arg 0 [] = JUndefined"
  "nth_arg 0 (a # as) = a"
  "nth_arg (Suc 0) [] = JUndefined"
  "nth_arg (Suc 0) [a] = JUndefined"
  "nth_arg (Suc 0) (a # b # bs) = b"
  by (simp_all add: nth_arg_def)

lemma populate_unfold:
  "populate env key cb w =
     (case user_populate env key of
        CallsBack args \<Rightarrow>
          if truthy (nth_arg 0 args) then cb args (log (PopulateCalled key) w)
          else set_bound env key (tl args) cb (log (PopulateCalled key) w)
      | Throws e \<Rightarrow>
          (case prefix_message e of
             None \<Rightarrow> Uncaught ''TypeError'' (log (PopulateCalled key) w)
           | Some e' \<Rightarrow>
               if truthy e' then cb [e'] (log (PopulateCalled key) w)
               else set_bound env key [] cb (log (PopulateCalled key) w))
      | Silent \<Rightarrow> cb [timeout_error env] (log (PopulateCalled key) w))"
  by (simp add: populate_def waterfall2_def populate_task_def Let_def timeout_error_def
      new_error_def split: behaviour.splits option.splits)

lemma set_bound_events:
  "\<exists>evs. trace (final_world (set_bound env key results (\<lambda>a w. Done w) w1)) = trace w1 @ evs
         \<and> (\<forall>n. LeaseReleased n \<notin> set evs)"
  by (simp add: set_bound_def cache_set_def Let_def log_def split: list.splits)

lemma populate_events:
  "\<exists>evs. trace (final_world (populate env key (\<lambda>a w. Done w) w1)) = trace w1 @ evs
         \<and> (\<forall>n. LeaseReleased n \<notin> set evs)"
proof -
  let ?w2 = "log (PopulateCalled key) w1"
  have base: "trace ?w2 = trace w1 @ [PopulateCalled key]"
    by (simp add: log_def)
  have direct: "\<exists>evs. trace ?w2 = trace w1 @ evs \<and> (\<forall>n. LeaseReleased n \<notin> set evs)"
    using base by simp
  have via_set: "\<exists>evs. trace (final_world (set_bound env key results (\<lambda>a w. Done w) ?w2))
                          = trace w1 @ evs \<and> (\<forall>n. LeaseReleased n \<notin> set evs)" for results
  proof -
    from set_bound_events [of env key results ?w2]
    obtain evs where "trace (final_world (set_bound env key results (\<lambda>a w. Done w) ?w2))
                        = trace ?w2 @ evs" and "\<forall>n. LeaseReleased n \<notin> set evs"
      by blast
    then have "trace (final_world (set_bound env key results (\<lambda>a w. Done w) ?w2))
                 = trace w1 @ (PopulateCalled key # evs)
               \<and> (\<forall>n. LeaseReleased n \<notin> set (PopulateCalled key # evs))"
      using base by simp
    then show ?thesis by blast
  qed
  show ?thesis
  proof (cases "user_populate env key")
    case (CallsBack args)
    then show ?thesis
      using direct via_set [of "tl args"] by (simp add: populate_unfold)
  next
    case (Throws e)
    then show ?thesis
      using direct via_set [of "[]"]
      by (cases "prefix_message e") (simp_all add: populate_unfold)
  next
    case Silent
    then show ?thesis
      using direct by (simp add: populate_unfold)
  qed
qed

text \<open>The three ways a call of \<open>set_bound\<close> and of \<open>populate\<close> can end.\<close>

lemma set_bound_outcomes:
  "(\<exists>args w'. \<forall>k. set_bound env key results k w = k args w')
   \<or> (\<exists>w'. \<forall>k. set_bound env key results k w = OutsideContract w')"
proof (cases "\<exists>v. results = [v]")
  case True
  then obtain v where r: "results = [v]" by blast
  show ?thesis
  proof (cases "truthy (set_err env key v)")
    case True
    with r have "\<forall>k. set_bound env key results k w
                   = k [set_err env key v] (log (StoreSet key v) w)"
      by (simp add: set_bound_def cache_set_def Let_def)
    then show ?thesis by blast
  next
    case False
    with r have "\<forall>k. set_bound env key results k w
                   = k [JNull, v] ((log (StoreSet key v) w)
                                     \<lparr>store := (store (log (StoreSet key v) w))(key \<mapsto> v)\<rparr>)"
      by (simp add: set_bound_def cache_set_def Let_def)
    then show ?thesis by blast
  qed
next
  case False
  then have "\<forall>k. set_bound env key results k w
               = OutsideContract (log (StoreSetMisused key results) w)"
    by (auto simp: set_bound_def split: list.splits)
  then show ?thesis by blast
qed

lemma populate_outcomes:
  "(\<exists>args w'. \<forall>k. populate env key k w = k args w')
   \<or> (\<exists>w'. \<forall>k. populate env key k w = Uncaught ''TypeError'' w')
   \<or> (\<exists>w'. \<forall>k. populate env key k w = OutsideContract w')"
proof (cases "user_populate env key")
  case (CallsBack args)
  show ?thesis
  proof (cases "truthy (nth_arg 0 args)")
    case True
    with CallsBack have "\<forall>k. populate env key k w = k args (log (PopulateCalled key) w)"
      by (simp add: populate_unfold)
    then show ?thesis by blast
  next
    case False
    with CallsBack have "\<forall>k. populate env key k w
                           = set_bound env key (tl args) k (log (PopulateCalled key) w)"
      by (simp add: populate_unfold)
    with set_bound_outcomes [of env key "tl args" "log (PopulateCalled key) w"]
    show ?thesis by auto
  qed
next
  case (Throws e)
  show ?thesis
  proof (cases "prefix_message e")
    case None
    with Throws have "\<forall>k. populate env key k w = Uncaught ''TypeError'' (log (PopulateCalled key) w)"
      by (simp add: populate_unfold)
    then show ?thesis by blast
  next
    case (Some e')
    show ?thesis
    proof (cases "truthy e'")
      case True
      with Throws Some have "\<forall>k. populate env key k w = k [e'] (log (PopulateCalled key) w)"
        by (simp add: populate_unfold)
      then show ?thesis by blast
    next
      case False
      with Throws Some have "\<forall>k. populate env key k w
                               = OutsideContract
                                   (log (StoreSetMisused key []) (log (PopulateCalled key) w))"
        by (simp add: populate_unfold set_bound_def)
      then show ?thesis by blast
    qed
  qed
next
  case Silent
  then have "\<forall>k. populate env key k w = k [timeout_error env] (log (PopulateCalled key) w)"
    by (simp add: populate_unfold)
  then show ?thesis by blast
qed

lemma leasedPopulate_granted:
  assumes "\<not> truthy (lease_err env (lockKey env key))"
    and "\<And>k. populate env key k (log (LeaseRequested (lockKey env key)) w) = k args w'"
  shows "leasedPopulate env key cb w =
           (if truthy (nth_arg 0 args) then
              cb [new_error ''PopulateError''
                    (''failed to populate '' @ [CHR 0x22] @ lockKey env key @ [CHR 0x22])
                    (nth_arg 0 args)] w'
            else cb [JNull, nth_arg 1 args] (log (LeaseReleased (lockKey env key)) w'))"
  using assms by (simp add: leasedPopulate_def critical_def Let_def)

lemma populate_ok_run:
  "populate env_ok key k w
     = k [JNull, JStr ''v1'']
         (w\<lparr>trace := trace w @ [PopulateCalled key, StoreSet key (JStr ''v1'')],
            store := (store w)(key \<mapsto> JStr ''v1'')\<rparr>)"
  by (simp add: populate_unfold set_bound_def cache_set_def Let_def log_def env_ok_def)

lemma populate_fail_run:
  "populate env_fail key k w
     = k [JObj ''Error'' (Some ''db down'') True JUndefined]
         (w\<lparr>trace := trace w @ [PopulateCalled key]\<rparr>)"
  by (simp add: populate_unfold log_def env_fail_def env_ok_def)

lemma is_prefix_iff: "is_prefix p s \<longleftrightarrow> (\<exists>suf. s = p @ suf)"
  by (induction p s rule: is_prefix.induct) auto

lemma regex_test_iff: "regex_test p s \<longleftrightarrow> (\<exists>pre suf. s = pre @ p @ suf)"
proof (induction s)
  case Nil
  show ?case by (simp add: is_prefix_iff)
next
  case (Cons c cs)
  show ?case
  proof
    assume "regex_test p (c # cs)"
    then consider "is_prefix p (c # cs)" | "regex_test p cs" by auto
    then show "\<exists>pre suf. c # cs = pre @ p @ suf"
    proof cases
      case 1
      then obtain suf where "c # cs = p @ suf" by (auto simp: is_prefix_iff)
      then have "c # cs = [] @ p @ suf" by simp
      then show ?thesis by blast
    next
      case 2
      then obtain pre suf where "cs = pre @ p @ suf" using Cons.IH by blast
      then have "c # cs = (c # pre) @ p @ suf" by simp
      then show ?thesis by blast
    qed
  next
    assume "\<exists>pre suf. c # cs = pre @ p @ suf"
    then obtain pre suf where eq: "c # cs = pre @ p @ suf" by blast
    show "regex_test p (c # cs)"
    proof (cases pre)
      case Nil
      with eq have "is_prefix p (c # cs)" by (auto simp: is_prefix_iff)
      then show ?thesis by simp
    next
      case (Cons a pre')
      with eq have "cs = pre' @ p @ suf" by simp
      then have "regex_test p cs" using Cons.IH by blast
      then show ?thesis by simp
    qed
  qed
qed


section \<open>Lease contention\<close>

text \<open>
  C1. When the lease coordinator reports that the lease is held elsewhere (a truthy
  error whose message matches \<^verbatim>\<open>Exceeded max retry count\<close>), \<open>leasedPopulate\<close>
  completes its callback with \<^verbatim>\<open>null\<close> alone, no value; up to that point the only
  thing that happened is the lease request: the configured populate function was not
  called, the store's \<^verbatim>\<open>set\<close> was not called, and the store is what it was.
\<close>

theorem leasedPopulate_contention_noop:
  assumes "truthy (lease_err env (lockKey env key))"
    and "regex_test retry_pattern (message_text (lease_err env (lockKey env key)))"
  shows "leasedPopulate env key cb w
           = cb [JNull] (w\<lparr>trace := trace w @ [LeaseRequested (lockKey env key)]\<rparr>)"
  using assms by (simp add: leasedPopulate_def critical_def Let_def log_def)

theorem leasedPopulate_contention_noop_witness:
  "truthy (lease_err env_busy (lockKey env_busy ''k''))
   \<and> regex_test retry_pattern (message_text (lease_err env_busy (lockKey env_busy ''k'')))
   \<and> leasedPopulate env_busy ''k'' reply w_empty
       = Done \<lparr>store = Map.empty, trace = [LeaseRequested ''ns:k'', Replied [JNull]]\<rparr>"
proof -
  have a: "truthy (lease_err env_busy (lockKey env_busy ''k''))"
    by (simp add: env_busy_def)
  have b: "regex_test retry_pattern (message_text (lease_err env_busy (lockKey env_busy ''k'')))"
    by (simp add: env_busy_def retry_pattern_def)
  show ?thesis
    using a b leasedPopulate_contention_noop [OF a b, of reply w_empty]
    by (simp add: reply_def log_def w_empty_def lockKey_def env_busy_def env_ok_def)
qed

section \<open>Release of the lease\<close>

text \<open>
  C2. After the lease is granted, \<open>populate\<close> is run. If it completes its callback
  with the arguments \<open>args\<close>, leaving the world \<open>w'\<close>, then it has not called the
  releaser itself, and: when it succeeded (no truthy first argument), the releaser is
  called and only then is the callback completed with the populated value, so the
  callback sees a world whose last event is the release; when it failed, the callback is
  completed with the error in the very world the populate step left, so the lease was not
  released. If \<open>populate\<close> ends with an uncaught exception, or by passing control to
  \<^verbatim>\<open>set\<close> outside its contract, so does \<open>leasedPopulate\<close>, and up to that point
  the releaser was not called.
\<close>

theorem leasedPopulate_release_iff_populated:
  assumes "\<not> truthy (lease_err env (lockKey env key))"
  shows "((\<forall>k. populate env key k (log (LeaseRequested (lockKey env key)) w) = k args w')
          \<longrightarrow> (\<exists>evs. trace w' = trace w @ LeaseRequested (lockKey env key) # evs
                     \<and> (\<forall>n. LeaseReleased n \<notin> set evs))
              \<and> leasedPopulate env key cb w =
                  (if truthy (nth_arg 0 args) then
                     cb [new_error ''PopulateError''
                           (''failed to populate '' @ [CHR 0x22] @ lockKey env key @ [CHR 0x22])
                           (nth_arg 0 args)] w'
                   else cb [JNull, nth_arg 1 args]
                          (w'\<lparr>trace := trace w' @ [LeaseReleased (lockKey env key)]\<rparr>)))
       \<and> ((\<forall>k. populate env key k (log (LeaseRequested (lockKey env key)) w) = Uncaught c w')
          \<longrightarrow> (\<exists>evs. trace w' = trace w @ LeaseRequested (lockKey env key) # evs
                     \<and> (\<forall>n. LeaseReleased n \<notin> set evs))
              \<and> leasedPopulate env key cb w = Uncaught c w')
       \<and> ((\<forall>k. populate env key k (log (LeaseRequested (lockKey env key)) w)
                  = OutsideContract w')
          \<longrightarrow> (\<exists>evs. trace w' = trace w @ LeaseRequested (lockKey env key) # evs
                     \<and> (\<forall>n. LeaseReleased n \<notin> set evs))
              \<and> leasedPopulate env key cb w = OutsideContract w')"
proof -
  let ?w1 = "log (LeaseRequested (lockKey env key)) w"
  have events: "\<exists>evs. trace w' = trace w @ LeaseRequested (lockKey env key) # evs
                     \<and> (\<forall>n. LeaseReleased n \<notin> set evs)"
    if "final_world (populate env key (\<lambda>a w. Done w) ?w1) = w'"
    using populate_events [of env key ?w1] that by (simp add: log_def)
  have completes: "(\<exists>evs. trace w' = trace w @ LeaseRequested (lockKey env key) # evs
                     \<and> (\<forall>n. LeaseReleased n \<notin> set evs))
              \<and> leasedPopulate env key cb w =
                  (if truthy (nth_arg 0 args) then
                     cb [new_error ''PopulateError''
                           (''failed to populate '' @ [CHR 0x22] @ lockKey env key @ [CHR 0x22])
                           (nth_arg 0 args)] w'
                   else cb [JNull, nth_arg 1 args]
                          (w'\<lparr>trace := trace w' @ [LeaseReleased (lockKey env key)]\<rparr>))"
    if pop: "\<forall>k. populate env key k ?w1 = k args w'"
  proof
    from pop have "final_world (populate env key (\<lambda>a w. Done w) ?w1) = w'"
      by simp
    then show "\<exists>evs. trace w' = trace w @ LeaseRequested (lockKey env key) # evs
                     \<and> (\<forall>n. LeaseReleased n \<notin> set evs)"
      by (rule events)
    from pop have "\<And>k. populate env key k ?w1 = k args w'"
      by simp
    from leasedPopulate_granted [OF assms this]
    show "leasedPopulate env key cb w =
            (if truthy (nth_arg 0 args) then
               cb [new_error ''PopulateError''
                     (''failed to populate '' @ [CHR 0x22] @ lockKey env key @ [CHR 0x22])
                     (nth_arg 0 args)] w'
             else cb [JNull, nth_arg 1 args]
                    (w'\<lparr>trace := trace w' @ [LeaseReleased (lockKey env key)]\<rparr>))"
      by (simp add: log_def)
  qed
  have crashes: "(\<exists>evs. trace w' = trace w @ LeaseRequested (lockKey env key) # evs
                     \<and> (\<forall>n. LeaseReleased n \<notin> set evs))
              \<and> leasedPopulate env key cb w = Uncaught c w'"
    if crash: "\<forall>k. populate env key k ?w1 = Uncaught c w'"
  proof
    from crash have "final_world (populate env key (\<lambda>a w. Done w) ?w1) = w'"
      by simp
    then show "\<exists>evs. trace w' = trace w @ LeaseRequested (lockKey env key) # evs
                     \<and> (\<forall>n. LeaseReleased n \<notin> set evs)"
      by (rule events)
    from crash assms show "leasedPopulate env key cb w = Uncaught c w'"
      by (simp add: leasedPopulate_def critical_def Let_def)
  qed
  have leaves: "(\<exists>evs. trace w' = trace w @ LeaseRequested (lockKey env key) # evs
                     \<and> (\<forall>n. LeaseReleased n \<notin> set evs))
              \<and> leasedPopulate env key cb w = OutsideContract w'"
    if out: "\<forall>k. populate env key k ?w1 = OutsideContract w'"
  proof
    from out have "final_world (populate env key (\<lambda>a w. Done w) ?w1) = w'"
      by simp
    then show "\<exists>evs. trace w' = trace w @ LeaseRequested (lockKey env key) # evs
                     \<and> (\<forall>n. LeaseReleased n \<notin> set evs)"
      by (rule events)
    from out assms show "leasedPopulate env key cb w = OutsideContract w'"
      by (simp add: leasedPopulate_def critical_def Let_def)
  qed
  from completes crashes leaves show ?thesis by blast
qed

theorem leasedPopulate_release_iff_populated_witness:
  "\<not> truthy (lease_err env_ok (lockKey env_ok ''k''))
   \<and> leasedPopulate env_ok ''k'' reply w_empty
       = Done \<lparr>store = [''k'' \<mapsto> JStr ''v1''],
               trace = [LeaseRequested ''ns:k'', PopulateCalled ''k'',
                        StoreSet ''k'' (JStr ''v1''), LeaseReleased ''ns:k'',
                        Replied [JNull, JStr ''v1'']]\<rparr>
   \<and> \<not> truthy (lease_err env_fail (lockKey env_fail ''k''))
   \<and> leasedPopulate env_fail ''k'' reply w_empty
       = Done \<lparr>store = Map.empty,
               trace = [LeaseRequested ''ns:k'', PopulateCalled ''k'',
                        Replied [JObj ''PopulateError''
                                   (Some (''failed to populate '' @ [CHR 0x22] @ ''ns:k'' @ [CHR 0x22]))
                                   True
                                   (JObj ''Error'' (Some ''db down'') True JUndefined)]]\<rparr>
   \<and> \<not> truthy (lease_err env_throw (lockKey env_throw ''nil''))
   \<and> leasedPopulate env_throw ''nil'' reply w_empty
       = Uncaught ''TypeError''
           \<lparr>store = Map.empty, trace = [LeaseRequested ''ns:nil'', PopulateCalled ''nil'']\<rparr>
   \<and> leasedPopulate env_throw ''zero'' reply w_empty
       = OutsideContract
           \<lparr>store = Map.empty,
            trace = [LeaseRequested ''ns:zero'', PopulateCalled ''zero'',
                     StoreSetMisused ''zero'' []]\<rparr>"
proof -
  have g1: "\<not> truthy (lease_err env_ok (lockKey env_ok ''k''))"
    by (simp add: env_ok_def)
  have g2: "\<not> truthy (lease_err env_fail (lockKey env_fail ''k''))"
    by (simp add: env_fail_def env_ok_def)
  have g3: "\<not> truthy (lease_err env_throw (lockKey env_throw ''nil''))"
    by (simp add: env_throw_def env_ok_def)
  have g4: "\<not> truthy (lease_err env_throw (lockKey env_throw ''zero''))"
    by (simp add: env_throw_def env_ok_def)
  have "leasedPopulate env_ok ''k'' reply w_empty
       = Done \<lparr>store = [''k'' \<mapsto> JStr ''v1''],
               trace = [LeaseRequested ''ns:k'', PopulateCalled ''k'',
                        StoreSet ''k'' (JStr ''v1''), LeaseReleased ''ns:k'',
                        Replied [JNull, JStr ''v1'']]\<rparr>"
    using leasedPopulate_release_iff_populated [OF g1, where w = w_empty and cb = reply
        and args = "[JNull, JStr ''v1'']"
        and w' = "\<lparr>store = [''k'' \<mapsto> JStr ''v1''],
                    trace = [LeaseRequested ''ns:k'', PopulateCalled ''k'',
                             StoreSet ''k'' (JStr ''v1'')]\<rparr>"]
    by (simp add: populate_ok_run reply_def log_def w_empty_def lockKey_def)
      (simp add: env_ok_def)
  moreover have "leasedPopulate env_fail ''k'' reply w_empty
       = Done \<lparr>store = Map.empty,
               trace = [LeaseRequested ''ns:k'', PopulateCalled ''k'',
                        Replied [JObj ''PopulateError''
                                   (Some (''failed to populate '' @ [CHR 0x22] @ ''ns:k'' @ [CHR 0x22]))
                                   True
                                   (JObj ''Error'' (Some ''db down'') True JUndefined)]]\<rparr>"
    using leasedPopulate_release_iff_populated [OF g2, where w = w_empty and cb = reply
        and args = "[JObj ''Error'' (Some ''db down'') True JUndefined]"
        and w' = "\<lparr>store = Map.empty,
                    trace = [LeaseRequested ''ns:k'', PopulateCalled ''k'']\<rparr>"]
    by (simp add: populate_fail_run reply_def log_def w_empty_def lockKey_def new_error_def)
      (simp add: env_fail_def env_ok_def)
  moreover have "leasedPopulate env_throw ''nil'' reply w_empty
       = Uncaught ''TypeError''
           \<lparr>store = Map.empty, trace = [LeaseRequested ''ns:nil'', PopulateCalled ''nil'']\<rparr>"
    using leasedPopulate_release_iff_populated [OF g3, where w = w_empty and cb = reply
        and c = "''TypeError''"
        and w' = "\<lparr>store = Map.empty,
                    trace = [LeaseRequested ''ns:nil'', PopulateCalled ''nil'']\<rparr>"]
    by (simp add: populate_unfold log_def w_empty_def lockKey_def env_throw_def env_ok_def)
  moreover have "leasedPopulate env_throw ''zero'' reply w_empty
       = OutsideContract
           \<lparr>store = Map.empty,
            trace = [LeaseRequested ''ns:zero'', PopulateCalled ''zero'',
                     StoreSetMisused ''zero'' []]\<rparr>"
    using leasedPopulate_release_iff_populated [OF g4, where w = w_empty and cb = reply
        and w' = "\<lparr>store = Map.empty,
                    trace = [LeaseRequested ''ns:zero'', PopulateCalled ''zero'',
                             StoreSetMisused ''zero'' []]\<rparr>"]
    by (simp add: populate_unfold set_bound_def log_def w_empty_def lockKey_def env_throw_def
        env_ok_def)
  ultimately show ?thesis using g1 g2 g3 by simp
qed

section \<open>Failure classification\<close>




text \<open>
  C4. When the lease coordinator reports an error whose message does not match
  \<^verbatim>\<open>Exceeded max retry count\<close>, \<open>leasedPopulate\<close> completes its callback with a
  \<^verbatim>\<open>LockError\<close> whose inner error is the coordinator's error and whose message ends
  with the lease name; the only thing that happened before is the lease request, so the
  configured populate function was not called and the store is what it was.
\<close>

theorem leasedPopulate_lock_error:
  assumes "truthy (lease_err env (lockKey env key))"
    and "\<not> regex_test retry_pattern (message_text (lease_err env (lockKey env key)))"
  shows "leasedPopulate env key cb w =
           cb [JObj ''LockError'' (Some (''could not aquire lock for: '' @ nsp env @ key)) True
                 (lease_err env (nsp env @ key))]
              (w\<lparr>trace := trace w @ [LeaseRequested (nsp env @ key)]\<rparr>)"
  using assms
  by (simp add: leasedPopulate_def critical_def Let_def log_def new_error_def lockKey_def)

theorem leasedPopulate_lock_error_witness:
  "truthy (lease_err env_down (lockKey env_down ''k''))
   \<and> \<not> regex_test retry_pattern (message_text (lease_err env_down (lockKey env_down ''k'')))
   \<and> leasedPopulate env_down ''k'' reply w_hit
       = Done \<lparr>store = [''k'' \<mapsto> JStr ''v0''],
               trace = [LeaseRequested ''ns:k'',
                        Replied [JObj ''LockError'' (Some ''could not aquire lock for: ns:k'') True
                                   (JObj ''Error'' (Some ''connect ECONNREFUSED'') True
                                      JUndefined)]]\<rparr>"
proof -
  have a: "truthy (lease_err env_down (lockKey env_down ''k''))"
    by (simp add: env_down_def)
  have b: "\<not> regex_test retry_pattern (message_text (lease_err env_down (lockKey env_down ''k'')))"
    by (simp add: env_down_def retry_pattern_def)
  show ?thesis
    using a b leasedPopulate_lock_error [OF a b, of reply w_hit]
    by (simp add: reply_def log_def w_hit_def lockKey_def env_down_def env_ok_def)
qed

text \<open>
  C9. For an acquisition error (a truthy \<^verbatim>\<open>err\<close>), \<open>leasedPopulate\<close> takes the
  silent path exactly when the text \<^verbatim>\<open>Exceeded max retry count\<close> occurs somewhere in
  the error's message; every other acquisition error is completed as a
  \<^verbatim>\<open>LockError\<close>.
\<close>

theorem leasedPopulate_contention_classification:
  assumes "truthy (lease_err env (lockKey env key))"
  shows "leasedPopulate env key cb w =
           (if (\<exists>pre suf. message_text (lease_err env (lockKey env key))
                            = pre @ ''Exceeded max retry count'' @ suf)
            then cb [JNull] (log (LeaseRequested (lockKey env key)) w)
            else cb [new_error ''LockError''
                       (''could not aquire lock for: '' @ lockKey env key)
                       (lease_err env (lockKey env key))]
                    (log (LeaseRequested (lockKey env key)) w))"
proof -
  have "regex_test retry_pattern (message_text (lease_err env (lockKey env key)))
        \<longleftrightarrow> (\<exists>pre suf. message_text (lease_err env (lockKey env key))
                            = pre @ ''Exceeded max retry count'' @ suf)"
    unfolding regex_test_iff retry_pattern_def ..
  then show ?thesis
    using assms by (simp add: leasedPopulate_def critical_def Let_def)
qed

theorem leasedPopulate_contention_classification_witness:
  "truthy (lease_err env_busy (lockKey env_busy ''k''))
   \<and> leasedPopulate env_busy ''k'' reply w_empty
       = Done \<lparr>store = Map.empty, trace = [LeaseRequested ''ns:k'', Replied [JNull]]\<rparr>
   \<and> truthy (lease_err env_down (lockKey env_down ''k''))
   \<and> leasedPopulate env_down ''k'' reply w_empty
       = Done \<lparr>store = Map.empty,
               trace = [LeaseRequested ''ns:k'',
                        Replied [JObj ''LockError'' (Some ''could not aquire lock for: ns:k'') True
                                   (JObj ''Error'' (Some ''connect ECONNREFUSED'') True
                                      JUndefined)]]\<rparr>"
proof -
  have a: "truthy (lease_err env_busy (lockKey env_busy ''k''))"
    by (simp add: env_busy_def)
  have b: "truthy (lease_err env_down (lockKey env_down ''k''))"
    by (simp add: env_down_def)
  have m1: "\<exists>pre suf. message_text (lease_err env_busy (lockKey env_busy ''k''))
                            = pre @ ''Exceeded max retry count'' @ suf"
    unfolding regex_test_iff [symmetric] by (simp add: env_busy_def)
  have m2: "\<not> (\<exists>pre suf. message_text (lease_err env_down (lockKey env_down ''k''))
                            = pre @ ''Exceeded max retry count'' @ suf)"
    unfolding regex_test_iff [symmetric] by (simp add: env_down_def)
  have "leasedPopulate env_busy ''k'' reply w_empty
       = Done \<lparr>store = Map.empty, trace = [LeaseRequested ''ns:k'', Replied [JNull]]\<rparr>"
    using leasedPopulate_contention_classification [OF a, of reply w_empty] m1
    by (simp add: reply_def log_def w_empty_def lockKey_def env_busy_def env_ok_def)
  moreover have "leasedPopulate env_down ''k'' reply w_empty
       = Done \<lparr>store = Map.empty,
               trace = [LeaseRequested ''ns:k'',
                        Replied [JObj ''LockError'' (Some ''could not aquire lock for: ns:k'') True
                                   (JObj ''Error'' (Some ''connect ECONNREFUSED'') True
                                      JUndefined)]]\<rparr>"
    using leasedPopulate_contention_classification [OF b, of reply w_empty] m2
    by (simp add: reply_def log_def w_empty_def lockKey_def env_down_def env_ok_def new_error_def)
  ultimately show ?thesis using a b by simp
qed


section \<open>Synchronous faults of the populate function\<close>




section \<open>Reads\<close>

text \<open>
  C6. For a key that is absent from the store (and a read that succeeds), one call of
  \<open>get\<close> calls the configured populate function exactly once, however that call
  ends. When the function completes with \<^verbatim>\<open>(err, value)\<close> without an error and the
  store accepts the write, \<open>get\<close> completes its callback with the populated value,
  after exactly one read, one call of the function and one \<^verbatim>\<open>set\<close> of that value, and
  the store then holds the value under the key.
\<close>

theorem get_miss_populates_once:
  assumes "store w key = None"
    and "\<not> truthy (get_err env key)"
  shows "count_list (trace (final_world (get env key reply w))) (PopulateCalled key)
           = Suc (count_list (trace w) (PopulateCalled key))
       \<and> (user_populate env key = CallsBack [perr, val] \<and> \<not> truthy perr
            \<and> \<not> truthy (set_err env key val) \<longrightarrow>
          get env key cb w =
            cb [JNull, val]
              (w\<lparr>trace := trace w @ [StoreGet key, PopulateCalled key, StoreSet key val],
                 store := (store w)(key \<mapsto> val)\<rparr>))"
proof
  have miss: "get env key k w = populate env key k (log (StoreGet key) w)" for k
    using assms
    by (simp add: get_def waterfall2_def cache_get_def returnOrPopulate_def Let_def)
  show "count_list (trace (final_world (get env key reply w))) (PopulateCalled key)
           = Suc (count_list (trace w) (PopulateCalled key))"
    unfolding miss
    by (simp add: populate_unfold set_bound_def cache_set_def Let_def reply_def log_def
        split: behaviour.splits option.splits list.splits)
  show "user_populate env key = CallsBack [perr, val] \<and> \<not> truthy perr
            \<and> \<not> truthy (set_err env key val) \<longrightarrow>
          get env key cb w =
            cb [JNull, val]
              (w\<lparr>trace := trace w @ [StoreGet key, PopulateCalled key, StoreSet key val],
                 store := (store w)(key \<mapsto> val)\<rparr>)"
    unfolding miss
    by (simp add: populate_unfold set_bound_def cache_set_def Let_def log_def)
qed

theorem get_miss_populates_once_witness:
  "store w_empty ''k'' = None
   \<and> \<not> truthy (get_err env_ok ''k'')
   \<and> user_populate env_ok ''k'' = CallsBack [JNull, JStr ''v1'']
   \<and> \<not> truthy (set_err env_ok ''k'' (JStr ''v1''))
   \<and> get env_ok ''k'' reply w_empty
       = Done \<lparr>store = [''k'' \<mapsto> JStr ''v1''],
               trace = [StoreGet ''k'', PopulateCalled ''k'', StoreSet ''k'' (JStr ''v1''),
                        Replied [JNull, JStr ''v1'']]\<rparr>
   \<and> count_list (trace (final_world (get env_ok ''k'' reply w_empty))) (PopulateCalled ''k'')
       = Suc 0"
proof -
  have a: "store w_empty ''k'' = None"
    by (simp add: w_empty_def)
  have b: "\<not> truthy (get_err env_ok ''k'')"
    by (simp add: env_ok_def)
  have c: "user_populate env_ok ''k'' = CallsBack [JNull, JStr ''v1'']
           \<and> \<not> truthy JNull \<and> \<not> truthy (set_err env_ok ''k'' (JStr ''v1''))"
    by (simp add: env_ok_def)
  show ?thesis
    using a b c get_miss_populates_once [OF a b, of JNull "JStr ''v1''" reply]
    by (simp add: reply_def log_def w_empty_def)
qed

text \<open>
  C7, as the code has it. For a key whose stored value is truthy (and a read that
  succeeds), \<open>get\<close> completes its callback with the stored value right after the read:
  the configured populate function is not called, nothing is written, and no lease is
  requested or released.
\<close>

theorem get_hit_truthy:
  assumes "store w key = Some v"
    and "truthy v"
    and "\<not> truthy (get_err env key)"
  shows "get env key cb w = cb [JNull, v] (w\<lparr>trace := trace w @ [StoreGet key]\<rparr>)"
  using assms
  by (simp add: get_def waterfall2_def cache_get_def returnOrPopulate_def Let_def log_def)

theorem get_hit_truthy_witness:
  "store w_hit ''k'' = Some (JStr ''v0'')
   \<and> truthy (JStr ''v0'')
   \<and> \<not> truthy (get_err env_ok ''k'')
   \<and> get env_ok ''k'' reply w_hit
       = Done \<lparr>store = [''k'' \<mapsto> JStr ''v0''],
               trace = [StoreGet ''k'', Replied [JNull, JStr ''v0'']]\<rparr>"
proof -
  have a: "store w_hit ''k'' = Some (JStr ''v0'')"
    by (simp add: w_hit_def)
  have b: "truthy (JStr ''v0'')"
    by simp
  have c: "\<not> truthy (get_err env_ok ''k'')"
    by (simp add: env_ok_def)
  show ?thesis
    using a b c get_hit_truthy [OF a b c, of reply]
    by (simp add: reply_def log_def w_hit_def)
qed

text \<open>
  Presence alone is not enough. For a key that is present with the value \<^verbatim>\<open>0\<close> the
  populate function is called, the stored \<^verbatim>\<open>0\<close> is overwritten, and the caller gets
  the populated value instead of the stored one.
\<close>

theorem get_hit_counterexample:
  "store w_zero ''k'' = Some (JNum 0)
   \<and> get env_ok ''k'' reply w_zero
       = Done \<lparr>store = [''k'' \<mapsto> JStr ''v1''],
               trace = [StoreGet ''k'', PopulateCalled ''k'', StoreSet ''k'' (JStr ''v1''),
                        Replied [JNull, JStr ''v1'']]\<rparr>"
  by (simp add: get_def waterfall2_def cache_get_def returnOrPopulate_def populate_unfold
      set_bound_def cache_set_def Let_def reply_def log_def w_zero_def env_ok_def)

text \<open>
  C10. After a read that succeeds, \<open>get\<close> goes on to \<open>populate\<close> with the same key
  and callback when the key is absent and also when the stored value is one of the falsy
  values \<^verbatim>\<open>undefined\<close>, \<^verbatim>\<open>null\<close>, \<^verbatim>\<open>false\<close>, \<^verbatim>\<open>0\<close>, \<^verbatim>\<open>NaN\<close> and the
  empty string; every other stored value is returned without population.
\<close>

theorem get_falsy_is_miss:
  assumes "\<not> truthy (get_err env key)"
  shows "(store w key = None \<longrightarrow>
            get env key cb w = populate env key cb (log (StoreGet key) w))
       \<and> (store w key = Some v
            \<and> v \<in> {JUndefined, JNull, JBool False, JNum 0, JNaN, JStr []} \<longrightarrow>
            get env key cb w = populate env key cb (log (StoreGet key) w))
       \<and> (store w key = Some v
            \<and> v \<notin> {JUndefined, JNull, JBool False, JNum 0, JNaN, JStr []} \<longrightarrow>
            get env key cb w = cb [JNull, v] (log (StoreGet key) w))"
proof (intro conjI impI)
  assume "store w key = None"
  with assms show "get env key cb w = populate env key cb (log (StoreGet key) w)"
    by (simp add: get_def waterfall2_def cache_get_def returnOrPopulate_def Let_def)
next
  assume "store w key = Some v \<and> v \<in> {JUndefined, JNull, JBool False, JNum 0, JNaN, JStr []}"
  then have "store w key = Some v" "\<not> truthy v"
    by (simp_all add: truthy_iff)
  with assms show "get env key cb w = populate env key cb (log (StoreGet key) w)"
    by (simp add: get_def waterfall2_def cache_get_def returnOrPopulate_def Let_def)
next
  assume "store w key = Some v \<and> v \<notin> {JUndefined, JNull, JBool False, JNum 0, JNaN, JStr []}"
  then have "store w key = Some v" "truthy v"
    by (simp_all add: truthy_iff)
  with assms show "get env key cb w = cb [JNull, v] (log (StoreGet key) w)"
    by (simp add: get_def waterfall2_def cache_get_def returnOrPopulate_def Let_def)
qed

theorem get_falsy_is_miss_witness:
  "\<not> truthy (get_err env_ok ''k'')
   \<and> store w_zero ''k'' = Some (JNum 0)
   \<and> JNum 0 \<in> {JUndefined, JNull, JBool False, JNum 0, JNaN, JStr []}
   \<and> get env_ok ''k'' reply w_zero
       = populate env_ok ''k'' reply \<lparr>store = [''k'' \<mapsto> JNum 0], trace = [StoreGet ''k'']\<rparr>
   \<and> store w_hit ''k'' = Some (JStr ''v0'')
   \<and> JStr ''v0'' \<notin> {JUndefined, JNull, JBool False, JNum 0, JNaN, JStr []}
   \<and> get env_ok ''k'' reply w_hit
       = reply [JNull, JStr ''v0'']
           \<lparr>store = [''k'' \<mapsto> JStr ''v0''], trace = [StoreGet ''k'']\<rparr>"
proof -
  have r: "\<not> truthy (get_err env_ok ''k'')"
    by (simp add: env_ok_def)
  have z: "store w_zero ''k'' = Some (JNum 0)
           \<and> JNum 0 \<in> {JUndefined, JNull, JBool False, JNum 0, JNaN, JStr []}"
    by (simp add: w_zero_def)
  have h: "store w_hit ''k'' = Some (JStr ''v0'')
           \<and> JStr ''v0'' \<notin> {JUndefined, JNull, JBool False, JNum 0, JNaN, JStr []}"
    by (simp add: w_hit_def)
  have "get env_ok ''k'' reply w_zero
       = populate env_ok ''k'' reply \<lparr>store = [''k'' \<mapsto> JNum 0], trace = [StoreGet ''k'']\<rparr>"
    using get_falsy_is_miss [OF r, where w = w_zero and v = "JNum 0" and cb = reply] z
    by (simp add: log_def w_zero_def)
  moreover have "get env_ok ''k'' reply w_hit
       = reply [JNull, JStr ''v0'']
           \<lparr>store = [''k'' \<mapsto> JStr ''v0''], trace = [StoreGet ''k'']\<rparr>"
    using get_falsy_is_miss [OF r, where w = w_hit and v = "JStr ''v0''" and cb = reply] h
    by (simp add: log_def w_hit_def)
  ultimately show ?thesis using r z h by simp
qed

section \<open>Stale events\<close>




end
